theory Spec2Isabelle
  imports Main "HOL-Library.Word" "HOL-Library.Multiset"
begin

unbundle bit_operations_syntax

section \<open>Strings and bytes\<close>

text \<open>
  A Python \<open>bytes\<close> value is a list of 8-bit characters. A Python \<open>str\<close> is represented
  by its UTF-8 encoding, so that \<open>s.encode()\<close> is the identity and \<open>b.decode('utf8')\<close>
  succeeds exactly on the well-formed byte sequences. String concatenation commutes with
  the encoding, so an f-string over \<open>str\<close> values is the concatenation of the encodings.
\<close>

type_synonym bytes = "char list"

datatype error = ReadError string | ParseError string | UnicodeDecodeError

fun error_str :: "error \<Rightarrow> string" where
  "error_str (ReadError m) = m"
| "error_str (ParseError m) = m"
| "error_str UnicodeDecodeError = ''invalid utf-8''"

definition cont_byte :: "nat \<Rightarrow> bool" where
  "cont_byte b = (128 \<le> b \<and> b \<le> 191)"

text \<open>Well-formed UTF-8, as the strict decoder of \<open>bytes.decode('utf8')\<close> accepts it.\<close>

fun utf8_valid :: "nat list \<Rightarrow> bool" where
  "utf8_valid [] = True"
| "utf8_valid (b0 # bs) =
     (if b0 < 128 then utf8_valid bs
      else if 194 \<le> b0 \<and> b0 \<le> 223 then
        (case bs of b1 # r \<Rightarrow> cont_byte b1 \<and> utf8_valid r | _ \<Rightarrow> False)
      else if 224 \<le> b0 \<and> b0 \<le> 239 then
        (case bs of b1 # b2 # r \<Rightarrow>
           (if b0 = 224 then 160 \<le> b1 \<and> b1 \<le> 191
            else if b0 = 237 then 128 \<le> b1 \<and> b1 \<le> 159
            else cont_byte b1) \<and> cont_byte b2 \<and> utf8_valid r
         | _ \<Rightarrow> False)
      else if 240 \<le> b0 \<and> b0 \<le> 244 then
        (case bs of b1 # b2 # b3 # r \<Rightarrow>
           (if b0 = 240 then 144 \<le> b1 \<and> b1 \<le> 191
            else if b0 = 244 then 128 \<le> b1 \<and> b1 \<le> 143
            else cont_byte b1) \<and> cont_byte b2 \<and> cont_byte b3 \<and> utf8_valid r
         | _ \<Rightarrow> False)
      else False)"

definition decode_utf8 :: "bytes \<Rightarrow> error + string" where
  "decode_utf8 bs = (if utf8_valid (map of_char bs) then Inr bs else Inl UnicodeDecodeError)"

text \<open>The slice \<open>content[a:b]\<close> for non-negative \<open>a\<close> and \<open>b\<close>: clamped, empty when \<open>b \<le> a\<close>.\<close>

definition py_slice :: "'a list \<Rightarrow> nat \<Rightarrow> nat \<Rightarrow> 'a list" where
  "py_slice xs a b = take (b - a) (drop a xs)"

text \<open>\<open>sub in s\<close> on strings: \<open>sub\<close> occurs in \<open>s\<close> as a contiguous piece.\<close>

fun is_substring :: "string \<Rightarrow> string \<Rightarrow> bool" where
  "is_substring sub [] = (sub = [])"
| "is_substring sub (c # cs) = (take (length sub) (c # cs) = sub \<or> is_substring sub cs)"

text \<open>The decimal text of a Python integer, as \<open>f"{line}"\<close> formats it.\<close>

definition digit_char :: "nat \<Rightarrow> char" where
  "digit_char n = ''0123456789'' ! (n mod 10)"

fun str_nat :: "nat \<Rightarrow> string" where
  "str_nat n = (if n < 10 then [digit_char n] else str_nat (n div 10) @ [digit_char n])"

declare str_nat.simps [simp del]

definition str_int :: "int \<Rightarrow> string" where
  "str_int i = (if i < 0 then CHR ''-'' # str_nat (nat (- i)) else str_nat (nat i))"

section \<open>The MD5 digest of \<open>hashlib.md5\<close> (RFC 1321)\<close>

type_synonym u32 = "32 word"

definition md5_s :: "nat list" where
  "md5_s = [7, 12, 17, 22, 7, 12, 17, 22, 7, 12, 17, 22, 7, 12, 17, 22,
            5, 9, 14, 20, 5, 9, 14, 20, 5, 9, 14, 20, 5, 9, 14, 20,
            4, 11, 16, 23, 4, 11, 16, 23, 4, 11, 16, 23, 4, 11, 16, 23,
            6, 10, 15, 21, 6, 10, 15, 21, 6, 10, 15, 21, 6, 10, 15, 21]"

definition md5_K :: "u32 list" where
  "md5_K = [0xd76aa478, 0xe8c7b756, 0x242070db, 0xc1bdceee, 0xf57c0faf, 0x4787c62a,
            0xa8304613, 0xfd469501, 0x698098d8, 0x8b44f7af, 0xffff5bb1, 0x895cd7be,
            0x6b901122, 0xfd987193, 0xa679438e, 0x49b40821, 0xf61e2562, 0xc040b340,
            0x265e5a51, 0xe9b6c7aa, 0xd62f105d, 0x02441453, 0xd8a1e681, 0xe7d3fbc8,
            0x21e1cde6, 0xc33707d6, 0xf4d50d87, 0x455a14ed, 0xa9e3e905, 0xfcefa3f8,
            0x676f02d9, 0x8d2a4c8a, 0xfffa3942, 0x8771f681, 0x6d9d6122, 0xfde5380c,
            0xa4beea44, 0x4bdecfa9, 0xf6bb4b60, 0xbebfbc70, 0x289b7ec6, 0xeaa127fa,
            0xd4ef3085, 0x04881d05, 0xd9d4d039, 0xe6db99e5, 0x1fa27cf8, 0xc4ac5665,
            0xf4292244, 0x432aff97, 0xab9423a7, 0xfc93a039, 0x655b59c3, 0x8f0ccc92,
            0xffeff47d, 0x85845dd1, 0x6fa87e4f, 0xfe2ce6e0, 0xa3014314, 0x4e0811a1,
            0xf7537e82, 0xbd3af235, 0x2ad7d2bb, 0xeb86d391]"

definition rotl32 :: "u32 \<Rightarrow> nat \<Rightarrow> u32" where
  "rotl32 x c = (push_bit c x) OR (drop_bit (32 - c) x)"

type_synonym md5_state = "u32 \<times> u32 \<times> u32 \<times> u32"

definition md5_step :: "u32 list \<Rightarrow> nat \<Rightarrow> md5_state \<Rightarrow> md5_state" where
  "md5_step M i st = (case st of (A, B, C, D) \<Rightarrow>
     let (F, g) =
        (if i < 16 then ((B AND C) OR ((NOT B) AND D), i)
         else if i < 32 then ((D AND B) OR ((NOT D) AND C), (5 * i + 1) mod 16)
         else if i < 48 then (B XOR C XOR D, (3 * i + 5) mod 16)
         else (C XOR (B OR (NOT D)), (7 * i) mod 16));
         F' = F + A + md5_K ! i + M ! g
     in (D, B + rotl32 F' (md5_s ! i), B, C))"

fun le_word :: "bytes \<Rightarrow> u32" where
  "le_word [] = 0"
| "le_word (c # cs) = of_char c + 256 * le_word cs"

fun words_of :: "nat \<Rightarrow> bytes \<Rightarrow> u32 list" where
  "words_of 0 bs = []"
| "words_of (Suc n) bs = le_word (take 4 bs) # words_of n (drop 4 bs)"

definition md5_block :: "md5_state \<Rightarrow> bytes \<Rightarrow> md5_state" where
  "md5_block h blk = (case h of (a0, b0, c0, d0) \<Rightarrow>
     (case fold (md5_step (words_of 16 blk)) [0..<64] h of (A, B, C, D) \<Rightarrow>
        (a0 + A, b0 + B, c0 + C, d0 + D)))"

fun le_bytes :: "nat \<Rightarrow> int \<Rightarrow> bytes" where
  "le_bytes 0 v = []"
| "le_bytes (Suc n) v = char_of (v mod 256) # le_bytes n (v div 256)"

definition md5_pad :: "bytes \<Rightarrow> bytes" where
  "md5_pad msg = msg @ [char_of (128::nat)]
       @ replicate ((119 - length msg mod 64) mod 64) (char_of (0::nat))
       @ le_bytes 8 ((8 * int (length msg)) mod 2 ^ 64)"

function md5_blocks :: "md5_state \<Rightarrow> bytes \<Rightarrow> md5_state" where
  "md5_blocks h bs =
     (if length bs < 64 then h else md5_blocks (md5_block h (take 64 bs)) (drop 64 bs))"
  by pat_completeness auto
termination
  by (relation "measure (\<lambda>(h, bs). length bs)") auto

declare md5_blocks.simps [simp del]

definition md5_digest :: "bytes \<Rightarrow> bytes" where
  "md5_digest msg =
     (case md5_blocks (0x67452301, 0xefcdab89, 0x98badcfe, 0x10325476) (md5_pad msg) of
        (a, b, c, d) \<Rightarrow> concat (map (\<lambda>w. le_bytes 4 (uint w)) [a, b, c, d]))"

definition hex_digit :: "nat \<Rightarrow> char" where
  "hex_digit n = ''0123456789abcdef'' ! (n mod 16)"

definition hex_byte :: "char \<Rightarrow> string" where
  "hex_byte c = [hex_digit (of_char c div 16), hex_digit (of_char c mod 16)]"

definition md5_hexdigest :: "bytes \<Rightarrow> string" where
  "md5_hexdigest msg = concat (map hex_byte (md5_digest msg))"

section \<open>The identifier assigner\<close>

text \<open>
  \<^verbatim>\<open>content = f"{type}:{path}:{name}:{line}"\<close> and
  \<^verbatim>\<open>hashlib.md5(content.encode()).hexdigest()[:16]\<close>. The method reads nothing of
  \<open>self\<close>, so the model takes no generator state.
\<close>

definition id_content :: "string \<Rightarrow> string \<Rightarrow> string \<Rightarrow> int \<Rightarrow> string" where
  "id_content type path name line = type @ '':'' @ path @ '':'' @ name @ '':'' @ str_int line"

definition generate_id :: "string \<Rightarrow> string \<Rightarrow> string \<Rightarrow> int \<Rightarrow> string" where
  "generate_id type path name line = take 16 (md5_hexdigest (id_content type path name line))"

section \<open>The graph model\<close>

text \<open>
  A Python \<open>dict\<close> keeps its keys in insertion order: an association list with distinct
  keys, where storing under a present key keeps the key's place and storing under a new
  key appends.
\<close>

type_synonym ('k, 'v) dict = "('k \<times> 'v) list"

fun dict_get :: "('k, 'v) dict \<Rightarrow> 'k \<Rightarrow> 'v \<Rightarrow> 'v" where
  "dict_get [] k dflt = dflt"
| "dict_get ((k', v) # d) k dflt = (if k' = k then v else dict_get d k dflt)"

fun dict_set :: "('k, 'v) dict \<Rightarrow> 'k \<Rightarrow> 'v \<Rightarrow> ('k, 'v) dict" where
  "dict_set [] k v = [(k, v)]"
| "dict_set ((k', v') # d) k v = (if k' = k then (k, v) # d else (k', v') # dict_set d k v)"

text \<open>
  The dataclasses \<open>Node\<close> and \<open>Edge\<close>, their fields prefixed. The values stored in a
  node's metadata are the language tag (a string) and the import list (a list of
  strings). Every node the code constructs is given a \<open>dict\<close> as metadata, so the
  default \<open>None\<close> of the field does not occur.
\<close>

datatype meta_value = MStr string | MStrList "string list"

record location =
  loc_line :: nat
  loc_column :: nat

record node =
  node_id :: string
  node_type :: string
  node_name :: string
  node_path :: string
  node_location :: location
  node_metadata :: "(string, meta_value) dict"

record edge =
  edge_source :: string
  edge_target :: string
  edge_type :: string

text \<open>The fields of a \<open>CodeGraphGenerator\<close> that its methods read or write.\<close>

record generator =
  root_path :: string
  language :: string
  nodes :: "node list"
  edges :: "edge list"
  exclude_patterns :: "string list"

section \<open>Collaborators: paths, the file system and the parser\<close>

text \<open>
  What the code reads of a \<open>pathlib.Path\<close> under the root: \<open>str(file_path)\<close>,
  \<open>file_path.parts\<close>, \<open>file_path.name\<close> and
  \<open>str(file_path.relative_to(self.root_path))\<close>. The paths that \<open>rglob\<close> yields lie
  under the root, where \<open>relative_to\<close> does not raise.
\<close>

record file_path =
  fp_str :: string
  fp_parts :: "string list"
  fp_name :: string
  fp_relative :: string

text \<open>
  A tree-sitter node: its byte range, its start point (row, column) and its children
  that carry a field name. \<open>child_by_field_name\<close> gives the first child under a field.
\<close>

datatype ts_node =
  TSNode (start_byte: nat) (end_byte: nat) (start_point: "nat \<times> nat")
         (fields: "(string \<times> ts_node) list")

definition child_by_field_name :: "ts_node \<Rightarrow> string \<Rightarrow> ts_node option" where
  "child_by_field_name n field = map_of (fields n) field"

text \<open>
  A parsed tree, as far as the extractor looks at it: the capture lists
  \<open>query.captures(tree.root_node)\<close> of the three fixed queries, each a list of
  (node, capture name) in the parser's order.
\<close>

record syntax_tree =
  class_captures :: "(ts_node \<times> string) list"
  function_captures :: "(ts_node \<times> string) list"
  import_captures :: "(ts_node \<times> string) list"

text \<open>
  The environment of a run: \<open>root_path.rglob(pattern)\<close>, \<open>is_file()\<close>,
  \<open>read_bytes()\<close> and \<open>parser.parse(content)\<close>, each of which may raise, and the clock.
\<close>

record env =
  rglob :: "string \<Rightarrow> file_path list"
  is_file :: "file_path \<Rightarrow> bool"
  read_bytes :: "file_path \<Rightarrow> error + bytes"
  parse :: "bytes \<Rightarrow> error + syntax_tree"
  now_isoformat :: string

section \<open>The generator\<close>

definition default_exclude_patterns :: "string list" where
  "default_exclude_patterns =
     [''node_modules'', ''venv'', ''dist'', ''build'', ''.git'',
      ''__pycache__'', ''.pytest_cache'', ''target'', ''.idea'']"

text \<open>\<open>__init__\<close>: \<open>exclude_patterns or [...]\<close> takes the default for \<open>None\<close> and for \<open>[]\<close>.\<close>

definition init :: "string \<Rightarrow> string \<Rightarrow> string list option \<Rightarrow> generator" where
  "init root lang excl =
     \<lparr>root_path = root, language = lang, nodes = [], edges = [],
      exclude_patterns =
        (case excl of None \<Rightarrow> default_exclude_patterns
         | Some ps \<Rightarrow> if ps = [] then default_exclude_patterns else ps)\<rparr>"

definition should_exclude :: "generator \<Rightarrow> file_path \<Rightarrow> bool" where
  "should_exclude st p = list_ex (\<lambda>pattern. pattern \<in> set (fp_parts p)) (exclude_patterns st)"

definition find_files :: "env \<Rightarrow> generator \<Rightarrow> string list \<Rightarrow> file_path list" where
  "find_files ev st patterns =
     concat (map (\<lambda>pattern.
        filter (\<lambda>p. is_file ev p \<and> \<not> should_exclude st p) (rglob ev pattern)) patterns)"

definition contains_edge :: "string \<Rightarrow> string \<Rightarrow> edge" where
  "contains_edge file_id target_id =
     \<lparr>edge_source = file_id, edge_target = target_id, edge_type = ''contains''\<rparr>"

definition file_node :: "generator \<Rightarrow> file_path \<Rightarrow> node" where
  "file_node st p =
     \<lparr>node_id = generate_id ''file'' (fp_relative p) (fp_name p) 0,
      node_type = ''file'', node_name = fp_name p, node_path = fp_relative p,
      node_location = \<lparr>loc_line = 0, loc_column = 0\<rparr>,
      node_metadata = [(''language'', MStr (language st))]\<rparr>"

definition decl_node :: "string \<Rightarrow> string \<Rightarrow> string \<Rightarrow> ts_node \<Rightarrow> node" where
  "decl_node kind relative_path decl_name n =
     \<lparr>node_id = generate_id kind relative_path decl_name (int (fst (start_point n))),
      node_type = kind, node_name = decl_name, node_path = relative_path,
      node_location = \<lparr>loc_line = fst (start_point n) + 1, loc_column = snd (start_point n)\<rparr>,
      node_metadata = []\<rparr>"

text \<open>
  The loops of \<open>extract_python_nodes\<close>. Each returns the generator as the loop left it,
  with the exception that ended it, if any: a node appended before a later capture
  raises stays appended.
\<close>

fun extract_classes ::
  "string \<Rightarrow> string \<Rightarrow> bytes \<Rightarrow> (ts_node \<times> string) list \<Rightarrow> generator \<Rightarrow> error option \<times> generator"
where
  "extract_classes relative_path file_id content [] st = (None, st)"
| "extract_classes relative_path file_id content ((n, capture_name) # rest) st =
     (if capture_name = ''class.def'' then
        (case child_by_field_name n ''name'' of
           Some class_name_node \<Rightarrow>
             (case decode_utf8 (py_slice content (start_byte class_name_node) (end_byte class_name_node)) of
                Inl e \<Rightarrow> (Some e, st)
              | Inr class_name \<Rightarrow>
                  (let cls = decl_node ''class'' relative_path class_name n in
                   extract_classes relative_path file_id content rest
                     (st\<lparr>nodes := nodes st @ [cls],
                         edges := edges st @ [contains_edge file_id (node_id cls)]\<rparr>)))
         | None \<Rightarrow> extract_classes relative_path file_id content rest st)
      else extract_classes relative_path file_id content rest st)"

fun extract_functions ::
  "string \<Rightarrow> string \<Rightarrow> bytes \<Rightarrow> (ts_node \<times> string) list \<Rightarrow> generator \<Rightarrow> error option \<times> generator"
where
  "extract_functions relative_path file_id content [] st = (None, st)"
| "extract_functions relative_path file_id content ((n, capture_name) # rest) st =
     (if capture_name = ''func.def'' then
        (case child_by_field_name n ''name'' of
           Some func_name_node \<Rightarrow>
             (case decode_utf8 (py_slice content (start_byte func_name_node) (end_byte func_name_node)) of
                Inl e \<Rightarrow> (Some e, st)
              | Inr func_name \<Rightarrow>
                  (let fn = decl_node ''function'' relative_path func_name n in
                   extract_functions relative_path file_id content rest
                     (st\<lparr>nodes := nodes st @ [fn],
                         edges := edges st @ [contains_edge file_id (node_id fn)]\<rparr>)))
         | None \<Rightarrow> extract_functions relative_path file_id content rest st)
      else extract_functions relative_path file_id content rest st)"

fun collect_imports :: "bytes \<Rightarrow> (ts_node \<times> string) list \<Rightarrow> string list \<Rightarrow> error + string list" where
  "collect_imports content [] imports = Inr imports"
| "collect_imports content ((n, capture_name) # rest) imports =
     (if is_substring ''import.name'' capture_name then
        (case decode_utf8 (py_slice content (start_byte n) (end_byte n)) of
           Inl e \<Rightarrow> Inl e
         | Inr import_name \<Rightarrow> collect_imports content rest (imports @ [import_name]))
      else collect_imports content rest imports)"

text \<open>
  \<^verbatim>\<open>for node in self.nodes: if node.id == file_id: node.metadata['imports'] = imports; break\<close>:
  the first node of the whole list that carries the id.
\<close>

fun store_imports :: "string \<Rightarrow> string list \<Rightarrow> node list \<Rightarrow> node list" where
  "store_imports file_id imports [] = []"
| "store_imports file_id imports (n # ns) =
     (if node_id n = file_id
      then n\<lparr>node_metadata := dict_set (node_metadata n) ''imports'' (MStrList imports)\<rparr> # ns
      else n # store_imports file_id imports ns)"

definition extract_python_nodes ::
  "syntax_tree \<Rightarrow> file_path \<Rightarrow> bytes \<Rightarrow> generator \<Rightarrow> error option \<times> generator"
where
  "extract_python_nodes tree p content st =
     (let relative_path = fp_relative p;
          file_id = generate_id ''file'' relative_path (fp_name p) 0;
          st1 = st\<lparr>nodes := nodes st @ [file_node st p]\<rparr>
      in case extract_classes relative_path file_id content (class_captures tree) st1 of
           (Some e, st2) \<Rightarrow> (Some e, st2)
         | (None, st2) \<Rightarrow>
             (case extract_functions relative_path file_id content (function_captures tree) st2 of
                (Some e, st3) \<Rightarrow> (Some e, st3)
              | (None, st3) \<Rightarrow>
                  (case collect_imports content (import_captures tree) [] of
                     Inl e \<Rightarrow> (Some e, st3)
                   | Inr imports \<Rightarrow>
                       (None, if imports \<noteq> []
                              then st3\<lparr>nodes := store_imports file_id imports (nodes st3)\<rparr>
                              else st3))))"

text \<open>
  One turn of the loop of \<open>generate\<close>, with the lines printed to the standard error
  stream so far. Whatever is raised inside the \<open>try\<close> is caught and printed.
\<close>

definition error_line :: "file_path \<Rightarrow> error \<Rightarrow> string" where
  "error_line p e = ''Error processing '' @ fp_str p @ '': '' @ error_str e"

definition process_file :: "env \<Rightarrow> file_path \<Rightarrow> generator \<times> string list \<Rightarrow> generator \<times> string list" where
  "process_file ev p acc = (case acc of (st, err) \<Rightarrow>
     (case read_bytes ev p of
        Inl e \<Rightarrow> (st, err @ [error_line p e])
      | Inr content \<Rightarrow>
          (case parse ev content of
             Inl e \<Rightarrow> (st, err @ [error_line p e])
           | Inr tree \<Rightarrow>
               if language st = ''python'' then
                 (case extract_python_nodes tree p content st of
                    (Some e, st') \<Rightarrow> (st', err @ [error_line p e])
                  | (None, st') \<Rightarrow> (st', err))
               else (st, err))))"

record graph_metadata =
  generated :: string
  md_language :: string
  md_root_path :: string
  files_processed :: nat
  node_count :: nat
  edge_count :: nat

record graph =
  graph_nodes :: "node list"
  graph_edges :: "edge list"
  graph_metadata :: graph_metadata

definition process_files :: "env \<Rightarrow> file_path list \<Rightarrow> generator \<Rightarrow> generator \<times> string list" where
  "process_files ev files st = fold (process_file ev) files (st, [])"

text \<open>
  \<open>generate\<close> returns the graph and leaves the generator updated; the second component
  of the result is what it printed to the standard error stream. The line it prints to
  the standard output stream (the number of files found) is left out. \<open>to_dict\<close> copies
  a node or an edge field by field, so the graph holds the records themselves.
\<close>

definition generate :: "env \<Rightarrow> string list \<Rightarrow> generator \<Rightarrow> (graph \<times> string list) \<times> generator" where
  "generate ev file_patterns st =
     (let files = find_files ev st file_patterns;
          (st', err) = process_files ev files st
      in ((\<lparr>graph_nodes = nodes st', graph_edges = edges st',
             graph_metadata =
               \<lparr>generated = now_isoformat ev, md_language = language st',
                md_root_path = root_path st', files_processed = length files,
                node_count = length (nodes st'), edge_count = length (edges st')\<rparr>\<rparr>, err),
          st'))"

section \<open>The statistics engine\<close>

text \<open>\<open>d[k] = d.get(k, 0) + 1\<close>\<close>

definition bump :: "('k, nat) dict \<Rightarrow> 'k \<Rightarrow> ('k, nat) dict" where
  "bump d k = dict_set d k (dict_get d k 0 + 1)"

definition connectivity :: "generator \<Rightarrow> (string, nat) dict" where
  "connectivity st = fold (\<lambda>e d. bump (bump d (edge_source e)) (edge_target e)) (edges st) []"

text \<open>
  \<open>sorted(items, key=lambda x: x[1], reverse=True)\<close>: Python's sort is stable, and with
  \<open>reverse=True\<close> items of equal key still keep their original order.
\<close>

definition sorted_by_count_reverse :: "('k \<times> nat) list \<Rightarrow> ('k \<times> nat) list" where
  "sorted_by_count_reverse items = sort_key (\<lambda>x. - int (snd x)) items"

record top_entry =
  top_name :: string
  top_type :: string
  top_path :: string
  top_connections :: nat

fun resolve_top :: "node list \<Rightarrow> (string \<times> nat) list \<Rightarrow> top_entry list" where
  "resolve_top ns [] = []"
| "resolve_top ns ((nid, cnt) # rest) =
     (case find (\<lambda>n. node_id n = nid) ns of
        Some n \<Rightarrow>
          \<lparr>top_name = node_name n, top_type = node_type n, top_path = node_path n,
           top_connections = cnt\<rparr> # resolve_top ns rest
      | None \<Rightarrow> resolve_top ns rest)"

record report =
  node_types :: "(string, nat) dict"
  edge_types :: "(string, nat) dict"
  top_connected :: "top_entry list"

text \<open>\<open>get_statistics\<close> returns the report; the generator is passed on as it was.\<close>

definition get_statistics :: "generator \<Rightarrow> report \<times> generator" where
  "get_statistics st =
     (let node_types = fold (\<lambda>n d. bump d (node_type n)) (nodes st) [];
          edge_types = fold (\<lambda>e d. bump d (edge_type e)) (edges st) [];
          top_nodes = take 5 (sorted_by_count_reverse (connectivity st))
      in (\<lparr>node_types = node_types, edge_types = edge_types,
            top_connected = resolve_top (nodes st) top_nodes\<rparr>, st))"

section \<open>Notions used to state the properties\<close>

text \<open>
  The elements of a list in the order of their first occurrence: the key order of a
  \<open>dict\<close> filled by a loop over the list.
\<close>

definition first_seen :: "'a list \<Rightarrow> 'a list" where
  "first_seen xs = rev (remdups (rev xs))"

text \<open>
  The ids at the two ends of every edge, in edge order, source before target; and the
  entry that lines 223 to 230 build for one item of \<open>top_nodes\<close>, if a node carries
  the id.
\<close>

definition edge_ends :: "generator \<Rightarrow> string list" where
  "edge_ends st = concat (map (\<lambda>e. [edge_source e, edge_target e]) (edges st))"

definition top_entry_of :: "node list \<Rightarrow> string \<times> nat \<Rightarrow> top_entry option" where
  "top_entry_of ns item =
     map_option (\<lambda>n. \<lparr>top_name = node_name n, top_type = node_type n, top_path = node_path n,
                       top_connections = snd item\<rparr>) (find (\<lambda>n. node_id n = fst item) ns)"

section \<open>A worked example\<close>

text \<open>
  A three-line source file \<open>a.py\<close> with one import, one class and one method, the
  captures a parser gives for it, and an environment in which \<open>b.py\<close> cannot be read.
\<close>

definition ex_content :: bytes where
  "ex_content = ''import os'' @ [CHR 0x0A] @ ''class A:'' @ [CHR 0x0A]
                @ ''    def f(self): pass'' @ [CHR 0x0A]"

definition ex_class :: ts_node where
  "ex_class = TSNode 10 40 (1, 0) [(''name'', TSNode 16 17 (1, 6) []), (''body'', TSNode 23 40 (2, 4) [])]"

definition ex_func :: ts_node where
  "ex_func = TSNode 23 40 (2, 4)
       [(''name'', TSNode 27 28 (2, 8) []), (''parameters'', TSNode 28 34 (2, 9) []),
        (''body'', TSNode 36 40 (2, 17) [])]"

definition ex_tree :: syntax_tree where
  "ex_tree = \<lparr>class_captures = [(ex_class, ''class.def''), (TSNode 16 17 (1, 6) [], ''class.name'')],
              function_captures = [(ex_func, ''func.def''), (TSNode 27 28 (2, 8) [], ''func.name'')],
              import_captures = [(TSNode 7 9 (0, 7) [], ''import.name'')]\<rparr>"

definition ex_file :: file_path where
  "ex_file = \<lparr>fp_str = ''/repo/a.py'', fp_parts = [''/'', ''repo'', ''a.py''],
              fp_name = ''a.py'', fp_relative = ''a.py''\<rparr>"

definition ex_unreadable :: file_path where
  "ex_unreadable = \<lparr>fp_str = ''/repo/b.py'', fp_parts = [''/'', ''repo'', ''b.py''],
              fp_name = ''b.py'', fp_relative = ''b.py''\<rparr>"

definition ex_env :: "file_path list \<Rightarrow> env" where
  "ex_env found =
     \<lparr>rglob = (\<lambda>pattern. if pattern = ''**/*.py'' then found else []),
      is_file = (\<lambda>p. True),
      read_bytes = (\<lambda>p. if p = ex_unreadable then Inl (ReadError ''Permission denied'')
                         else Inr ex_content),
      parse = (\<lambda>content. Inr ex_tree),
      now_isoformat = ''2024-01-01T00:00:00''\<rparr>"

text \<open>
  Three hand-made graphs: the one of the specification's example, one with ties in the
  connection counts and more than five connected ids, and one whose edges mention ids
  that no node carries.
\<close>

definition ex_node :: "string \<Rightarrow> string \<Rightarrow> string \<Rightarrow> node" where
  "ex_node i kind nm =
     \<lparr>node_id = i, node_type = kind, node_name = nm, node_path = ''a.py'',
      node_location = \<lparr>loc_line = 0, loc_column = 0\<rparr>, node_metadata = []\<rparr>"

definition ex_ranked :: generator where
  "ex_ranked = (init ''/repo'' ''python'' None)
     \<lparr>nodes := [ex_node ''F'' ''file'' ''a.py'', ex_node ''A'' ''class'' ''Alpha'',
                ex_node ''B'' ''function'' ''beta'', ex_node ''G'' ''file'' ''g.py'',
                ex_node ''C'' ''class'' ''Gamma'', ex_node ''D'' ''function'' ''delta''],
      edges := [contains_edge ''F'' ''A'', contains_edge ''F'' ''B'',
                contains_edge ''G'' ''C'', contains_edge ''G'' ''D'']\<rparr>"

definition ex_dangling :: generator where
  "ex_dangling = (init ''/repo'' ''python'' None)
     \<lparr>nodes := [ex_node ''A'' ''class'' ''Alpha'', ex_node ''B'' ''function'' ''beta''],
      edges := [contains_edge ''X1'' ''X2'', contains_edge ''X3'' ''X4'',
                contains_edge ''A'' ''B'']\<rparr>"

definition ex_small :: generator where
  "ex_small = (init ''/repo'' ''python'' None)
     \<lparr>nodes := [ex_node ''F'' ''file'' ''a.py'', ex_node ''A'' ''class'' ''Alpha'',
                ex_node ''B'' ''function'' ''beta''],
      edges := [contains_edge ''F'' ''A'', contains_edge ''F'' ''B'']\<rparr>"

section \<open>Properties of the identifier assigner\<close>

text \<open>
  The digest function on test vectors: the empty message and \<open>abc\<close> of RFC 1321, and a
  message of 56 bytes, the shortest that needs a second block.
\<close>

lemma md5_vector_abc: "md5_hexdigest ''abc'' = ''900150983cd24fb0d6963f7d28e17f72''"
  by code_simp

lemma md5_vector_empty: "md5_hexdigest [] = ''d41d8cd98f00b204e9800998ecf8427e''"
  by code_simp

lemma md5_vector_two_blocks:
  "md5_hexdigest (replicate 56 CHR ''a'') = ''3b0c8ac703f828b04c6c197006d17218''"
  by code_simp




















section \<open>The extractor\<close>









lemma extract_classes_append:
  "extract_classes rel fid content (xs @ ys) st =
     (case extract_classes rel fid content xs st of
        (Some e, st') \<Rightarrow> (Some e, st')
      | (None, st') \<Rightarrow> extract_classes rel fid content ys st')"
  by (induction xs arbitrary: st)
     (auto simp: Let_def split: option.splits sum.splits prod.splits)

lemma extract_functions_append:
  "extract_functions rel fid content (xs @ ys) st =
     (case extract_functions rel fid content xs st of
        (Some e, st') \<Rightarrow> (Some e, st')
      | (None, st') \<Rightarrow> extract_functions rel fid content ys st')"
  by (induction xs arbitrary: st)
     (auto simp: Let_def split: option.splits sum.splits prod.splits)

text \<open>
  C8. A capture whose node has no child under the field \<open>name\<close> adds no node and no
  edge and raises nothing: each loop gives the same result with the capture as without
  it, wherever it stands in the capture list, and so does the extraction of the file.
\<close>

theorem nameless_declaration_skipped:
  assumes "child_by_field_name n ''name'' = None"
  shows "extract_classes rel fid content [(n, capture_name)] st = (None, st)
    \<and> extract_functions rel fid content [(n, capture_name)] st = (None, st)
    \<and> extract_classes rel fid content (before @ (n, capture_name) # after) st =
        extract_classes rel fid content (before @ after) st
    \<and> extract_functions rel fid content (before @ (n, capture_name) # after) st =
        extract_functions rel fid content (before @ after) st
    \<and> extract_python_nodes (tree\<lparr>class_captures := before @ (n, capture_name) # after\<rparr>) p content st =
        extract_python_nodes (tree\<lparr>class_captures := before @ after\<rparr>) p content st
    \<and> extract_python_nodes (tree\<lparr>function_captures := before @ (n, capture_name) # after\<rparr>) p content st =
        extract_python_nodes (tree\<lparr>function_captures := before @ after\<rparr>) p content st"
proof -
  have c1: "extract_classes rel' fid' content ((n, capture_name) # cs) s =
      extract_classes rel' fid' content cs s" for rel' fid' cs s
    using assms by simp
  have f1: "extract_functions rel' fid' content ((n, capture_name) # cs) s =
      extract_functions rel' fid' content cs s" for rel' fid' cs s
    using assms by simp
  have c2: "extract_classes rel' fid' content (before @ (n, capture_name) # after) s =
      extract_classes rel' fid' content (before @ after) s" for rel' fid' s
    by (simp only: extract_classes_append c1)
  have f2: "extract_functions rel' fid' content (before @ (n, capture_name) # after) s =
      extract_functions rel' fid' content (before @ after) s" for rel' fid' s
    by (simp only: extract_functions_append f1)
  have s1: "extract_classes rel fid content [(n, capture_name)] st = (None, st)"
    and s2: "extract_functions rel fid content [(n, capture_name)] st = (None, st)"
    using assms by simp_all
  have p1: "extract_python_nodes (tree\<lparr>class_captures := before @ (n, capture_name) # after\<rparr>) p content st =
        extract_python_nodes (tree\<lparr>class_captures := before @ after\<rparr>) p content st"
    unfolding extract_python_nodes_def Let_def
    by (simp add: c2 cong: prod.case_cong option.case_cong sum.case_cong)
  have p2: "extract_python_nodes (tree\<lparr>function_captures := before @ (n, capture_name) # after\<rparr>) p content st =
        extract_python_nodes (tree\<lparr>function_captures := before @ after\<rparr>) p content st"
    unfolding extract_python_nodes_def Let_def
    by (simp add: f2 cong: prod.case_cong option.case_cong sum.case_cong)
  show ?thesis
    using s1 s2 c2 f2 p1 p2 by blast
qed

theorem nameless_declaration_skipped_witness:
  "child_by_field_name (TSNode 0 9 (0, 0) [(''body'', TSNode 7 9 (0, 7) [])]) ''name'' = None
   \<and> extract_classes ''a.py'' (generate_id ''file'' ''a.py'' ''a.py'' 0) ex_content
        [(TSNode 0 9 (0, 0) [(''body'', TSNode 7 9 (0, 7) [])], ''class.def'')]
        (init ''/repo'' ''python'' None) = (None, init ''/repo'' ''python'' None)
   \<and> extract_python_nodes
        (ex_tree\<lparr>function_captures :=
           [(ex_func, ''func.def''),
            (TSNode 0 9 (0, 0) [(''body'', TSNode 7 9 (0, 7) [])], ''func.def''),
            (TSNode 27 28 (2, 8) [], ''func.name'')]\<rparr>)
        ex_file ex_content (init ''/repo'' ''python'' None) =
       extract_python_nodes ex_tree ex_file ex_content (init ''/repo'' ''python'' None)"
proof -
  have h: "child_by_field_name (TSNode 0 9 (0, 0) [(''body'', TSNode 7 9 (0, 7) [])]) ''name'' = None"
    by (simp add: child_by_field_name_def)
  have t: "ex_tree\<lparr>function_captures := [(ex_func, ''func.def'')] @ [(TSNode 27 28 (2, 8) [], ''func.name'')]\<rparr>
      = ex_tree"
    by (simp add: ex_tree_def)
  from nameless_declaration_skipped [OF h, where rel = "''a.py''"
      and fid = "generate_id ''file'' ''a.py'' ''a.py'' 0" and content = ex_content
      and capture_name = "''class.def''" and st = "init ''/repo'' ''python'' None"]
  have "extract_classes ''a.py'' (generate_id ''file'' ''a.py'' ''a.py'' 0) ex_content
        [(TSNode 0 9 (0, 0) [(''body'', TSNode 7 9 (0, 7) [])], ''class.def'')]
        (init ''/repo'' ''python'' None) = (None, init ''/repo'' ''python'' None)"
    by blast
  moreover
  from nameless_declaration_skipped [OF h, where content = ex_content
      and capture_name = "''func.def''" and before = "[(ex_func, ''func.def'')]"
      and after = "[(TSNode 27 28 (2, 8) [], ''func.name'')]" and tree = ex_tree and p = ex_file
      and st = "init ''/repo'' ''python'' None"]
  have "extract_python_nodes
        (ex_tree\<lparr>function_captures :=
           [(ex_func, ''func.def'')] @
            (TSNode 0 9 (0, 0) [(''body'', TSNode 7 9 (0, 7) [])], ''func.def'') #
            [(TSNode 27 28 (2, 8) [], ''func.name'')]\<rparr>)
        ex_file ex_content (init ''/repo'' ''python'' None) =
       extract_python_nodes
        (ex_tree\<lparr>function_captures := [(ex_func, ''func.def'')] @ [(TSNode 27 28 (2, 8) [], ''func.name'')]\<rparr>)
        ex_file ex_content (init ''/repo'' ''python'' None)"
    by blast
  ultimately show ?thesis using h t by simp
qed





lemmas ex_simps = extract_python_nodes_def Let_def init_def ex_tree_def ex_file_def ex_content_def
      ex_class_def ex_func_def child_by_field_name_def decode_utf8_def py_slice_def file_node_def
      decl_node_def cont_byte_def contains_edge_def




section \<open>The graph builder\<close>

lemma process_file_log:
  "process_file ev f (st, err) =
     (fst (process_file ev f (st, [])), err @ snd (process_file ev f (st, [])))"
  by (simp add: process_file_def split: sum.splits option.splits prod.splits)

lemma fold_process_file_log:
  "fold (process_file ev) fs (st, err) =
     (fst (fold (process_file ev) fs (st, [])), err @ snd (fold (process_file ev) fs (st, [])))"
proof (induction fs arbitrary: st err)
  case Nil
  show ?case by simp
next
  case (Cons f fs)
  define st1 where "st1 = fst (process_file ev f (st, []))"
  define l1 where "l1 = snd (process_file ev f (st, []))"
  have a: "process_file ev f (st, err) = (st1, err @ l1)"
    unfolding st1_def l1_def by (rule process_file_log)
  have b: "process_file ev f (st, []) = (st1, l1)"
    unfolding st1_def l1_def by simp
  have "fold (process_file ev) (f # fs) (st, err) = fold (process_file ev) fs (st1, err @ l1)"
    by (simp add: a)
  also have "\<dots> = (fst (fold (process_file ev) fs (st1, [])),
       (err @ l1) @ snd (fold (process_file ev) fs (st1, [])))"
    by (rule Cons.IH)
  finally have lhs: "fold (process_file ev) (f # fs) (st, err) =
      (fst (fold (process_file ev) fs (st1, [])), err @ l1 @ snd (fold (process_file ev) fs (st1, [])))"
    by simp
  have "fold (process_file ev) (f # fs) (st, []) = fold (process_file ev) fs (st1, l1)"
    by (simp add: b)
  also have "\<dots> = (fst (fold (process_file ev) fs (st1, [])),
       l1 @ snd (fold (process_file ev) fs (st1, [])))"
    by (rule Cons.IH)
  finally show ?case using lhs by simp
qed

lemma process_file_env:
  "read_bytes ev' = read_bytes ev \<Longrightarrow> parse ev' = parse ev \<Longrightarrow>
     process_file ev' = process_file ev"
  by (intro ext) (simp add: process_file_def cong: sum.case_cong prod.case_cong)

text \<open>
  C3. Per-file failure isolation. When \<open>read_bytes\<close> or \<open>parse\<close> raises for a file, the
  exception is caught, one line naming the file and the cause is printed to the standard
  error stream, and the generator is left as it was: the file adds no node and no edge.
  In a batch the remaining files are processed, and the generator after the batch, hence
  the nodes and edges of the returned graph, are those of the same batch without the
  failing file.
\<close>

theorem failing_file_contributes_nothing:
  assumes "read_bytes ev f = Inl e \<or> (\<exists>content. read_bytes ev f = Inr content \<and> parse ev content = Inl e)"
  shows "process_file ev f (st, err) = (st, err @ [error_line f e])
    \<and> fst (process_files ev (before @ f # after) st) = fst (process_files ev (before @ after) st)
    \<and> error_line f e \<in> set (snd (process_files ev (before @ f # after) st))
    \<and> (find_files ev st pats = before @ f # after \<and> find_files ev' st pats' = before @ after
         \<and> read_bytes ev' = read_bytes ev \<and> parse ev' = parse ev \<longrightarrow>
        graph_nodes (fst (fst (generate ev pats st))) = graph_nodes (fst (fst (generate ev' pats' st)))
        \<and> graph_edges (fst (fst (generate ev pats st))) = graph_edges (fst (fst (generate ev' pats' st)))
        \<and> snd (generate ev pats st) = snd (generate ev' pats' st)
        \<and> error_line f e \<in> set (snd (fst (generate ev pats st))))"
proof -
  have step: "process_file ev f (s, l) = (s, l @ [error_line f e])" for s l
    using assms by (auto simp: process_file_def)
  define mid where "mid = fold (process_file ev) before (st, [])"
  have split: "process_files ev (before @ f # after) st =
      fold (process_file ev) after (fst mid, snd mid @ [error_line f e])"
    using step [of "fst mid" "snd mid"] by (simp add: process_files_def mid_def)
  have without: "process_files ev (before @ after) st =
      fold (process_file ev) after (fst mid, snd mid)"
    by (simp add: process_files_def mid_def)
  have st_eq: "fst (process_files ev (before @ f # after) st) = fst (process_files ev (before @ after) st)"
    unfolding split without
    by (subst fold_process_file_log, subst (2) fold_process_file_log) simp
  have "snd (process_files ev (before @ f # after) st) =
      (snd mid @ [error_line f e]) @ snd (fold (process_file ev) after (fst mid, []))"
    unfolding split by (subst fold_process_file_log) simp
  then have log: "error_line f e \<in> set (snd (process_files ev (before @ f # after) st))"
    by simp
  have gen: "graph_nodes (fst (fst (generate ev pats st))) = graph_nodes (fst (fst (generate ev' pats' st)))
        \<and> graph_edges (fst (fst (generate ev pats st))) = graph_edges (fst (fst (generate ev' pats' st)))
        \<and> snd (generate ev pats st) = snd (generate ev' pats' st)
        \<and> error_line f e \<in> set (snd (fst (generate ev pats st)))"
    if h: "find_files ev st pats = before @ f # after" "find_files ev' st pats' = before @ after"
      "read_bytes ev' = read_bytes ev" "parse ev' = parse ev"
  proof -
    have pf: "process_files ev' fs st = process_files ev fs st" for fs
      by (simp add: process_files_def process_file_env [OF h(3) h(4)])
    have g1: "generate ev pats st =
        ((\<lparr>graph_nodes = nodes (fst (process_files ev (before @ f # after) st)),
           graph_edges = edges (fst (process_files ev (before @ f # after) st)),
           graph_metadata =
             \<lparr>generated = now_isoformat ev,
              md_language = language (fst (process_files ev (before @ f # after) st)),
              md_root_path = root_path (fst (process_files ev (before @ f # after) st)),
              files_processed = length (before @ f # after),
              node_count = length (nodes (fst (process_files ev (before @ f # after) st))),
              edge_count = length (edges (fst (process_files ev (before @ f # after) st)))\<rparr>\<rparr>,
          snd (process_files ev (before @ f # after) st)),
         fst (process_files ev (before @ f # after) st))"
      by (simp add: generate_def h(1) Let_def split: prod.splits)
    have g2: "generate ev' pats' st =
        ((\<lparr>graph_nodes = nodes (fst (process_files ev (before @ after) st)),
           graph_edges = edges (fst (process_files ev (before @ after) st)),
           graph_metadata =
             \<lparr>generated = now_isoformat ev',
              md_language = language (fst (process_files ev (before @ after) st)),
              md_root_path = root_path (fst (process_files ev (before @ after) st)),
              files_processed = length (before @ after),
              node_count = length (nodes (fst (process_files ev (before @ after) st))),
              edge_count = length (edges (fst (process_files ev (before @ after) st)))\<rparr>\<rparr>,
          snd (process_files ev (before @ after) st)),
         fst (process_files ev (before @ after) st))"
      by (simp add: generate_def h(2) Let_def pf split: prod.splits)
    show ?thesis
      unfolding g1 g2 using st_eq log by simp
  qed
  from step st_eq log gen show ?thesis by blast
qed

lemma ex_find:
  "find_files (ex_env found) (init ''/repo'' ''python'' None) [''**/*.py'']
     = filter (\<lambda>p. \<not> should_exclude (init ''/repo'' ''python'' None) p) found"
  by (simp add: find_files_def ex_env_def)

lemma ex_not_excluded:
  "\<not> should_exclude (init ''/repo'' ''python'' None) ex_file"
  "\<not> should_exclude (init ''/repo'' ''python'' None) ex_unreadable"
  by (simp_all add: should_exclude_def init_def ex_file_def ex_unreadable_def
      default_exclude_patterns_def)

theorem failing_file_contributes_nothing_witness:
  "read_bytes (ex_env [ex_unreadable, ex_file]) ex_unreadable = Inl (ReadError ''Permission denied'')
   \<and> find_files (ex_env [ex_unreadable, ex_file]) (init ''/repo'' ''python'' None) [''**/*.py'']
       = [ex_unreadable, ex_file]
   \<and> graph_nodes (fst (fst (generate (ex_env [ex_unreadable, ex_file]) [''**/*.py'']
         (init ''/repo'' ''python'' None))))
      = graph_nodes (fst (fst (generate (ex_env [ex_file]) [''**/*.py''] (init ''/repo'' ''python'' None))))
   \<and> graph_edges (fst (fst (generate (ex_env [ex_unreadable, ex_file]) [''**/*.py'']
         (init ''/repo'' ''python'' None))))
      = graph_edges (fst (fst (generate (ex_env [ex_file]) [''**/*.py''] (init ''/repo'' ''python'' None))))
   \<and> map node_name (graph_nodes (fst (fst (generate (ex_env [ex_unreadable, ex_file]) [''**/*.py'']
         (init ''/repo'' ''python'' None))))) = [''a.py'', ''A'', ''f'']
   \<and> snd (fst (generate (ex_env [ex_unreadable, ex_file]) [''**/*.py''] (init ''/repo'' ''python'' None)))
      = [''Error processing /repo/b.py: Permission denied'']"
proof -
  let ?st = "init ''/repo'' ''python'' None"
  let ?ev = "ex_env [ex_unreadable, ex_file]"
  let ?ev' = "ex_env [ex_file]"
  have h: "read_bytes ?ev ex_unreadable = Inl (ReadError ''Permission denied'')
      \<or> (\<exists>content. read_bytes ?ev ex_unreadable = Inr content
            \<and> parse ?ev content = Inl (ReadError ''Permission denied''))"
    by (simp add: ex_env_def)
  have f1: "find_files ?ev ?st [''**/*.py''] = [] @ ex_unreadable # [ex_file]"
    and f2: "find_files ?ev' ?st [''**/*.py''] = [] @ [ex_file]"
    by (simp_all add: ex_find ex_not_excluded)
  have same: "read_bytes ?ev' = read_bytes ?ev" "parse ?ev' = parse ?ev"
    by (simp_all add: ex_env_def)
  from failing_file_contributes_nothing [OF h, where before = "[]" and after = "[ex_file]"
      and st = ?st and pats = "[''**/*.py'']" and pats' = "[''**/*.py'']" and ev' = ?ev'] f1 f2 same
  have eq: "graph_nodes (fst (fst (generate ?ev [''**/*.py''] ?st)))
        = graph_nodes (fst (fst (generate ?ev' [''**/*.py''] ?st)))"
    "graph_edges (fst (fst (generate ?ev [''**/*.py''] ?st)))
        = graph_edges (fst (fst (generate ?ev' [''**/*.py''] ?st)))"
    by blast+
  have r: "read_bytes ?ev ex_unreadable = Inl (ReadError ''Permission denied'')"
    by (simp add: ex_env_def)
  have names: "map node_name (graph_nodes (fst (fst (generate ?ev [''**/*.py''] ?st)))) = [''a.py'', ''A'', ''f'']"
    and err: "snd (fst (generate ?ev [''**/*.py''] ?st)) = [''Error processing /repo/b.py: Permission denied'']"
    by (simp_all add: generate_def ex_find ex_not_excluded process_files_def process_file_def)
       (simp_all add: ex_env_def ex_unreadable_def error_line_def ex_simps)
  from r f1 eq names err show ?thesis by simp
qed



section \<open>The statistics engine: properties\<close>

lemma dict_get_keys:
  "dict_get (map (\<lambda>k. (k, f k)) ks) x d = (if x \<in> set ks then f x else d)"
  by (induction ks) auto

lemma dict_set_present:
  "distinct ks \<Longrightarrow> x \<in> set ks \<Longrightarrow>
     dict_set (map (\<lambda>k. (k, f k)) ks) x v = map (\<lambda>k. (k, if k = x then v else f k)) ks"
  by (induction ks) auto

lemma dict_set_absent:
  "x \<notin> set ks \<Longrightarrow> dict_set (map (\<lambda>k. (k, f k)) ks) x v = map (\<lambda>k. (k, f k)) ks @ [(x, v)]"
  by (induction ks) auto

lemma first_seen_snoc:
  "first_seen (xs @ [x]) = (if x \<in> set xs then first_seen xs else first_seen xs @ [x])"
  by (simp add: first_seen_def)

lemma first_seen_props: "distinct (first_seen xs)" "set (first_seen xs) = set xs"
  by (simp_all add: first_seen_def)

lemma count_list_snoc: "count_list (xs @ [x]) k = count_list xs k + (if k = x then 1 else 0)"
  by (induction xs) auto

lemma count_list_absent: "x \<notin> set xs \<Longrightarrow> count_list xs x = 0"
  by (induction xs) auto

lemma histogram_fold:
  "fold (\<lambda>x d. bump d x) xs [] = map (\<lambda>k. (k, count_list xs k)) (first_seen xs)"
proof (induction xs rule: rev_induct)
  case Nil
  show ?case by (simp add: first_seen_def)
next
  case (snoc x xs)
  let ?h = "map (\<lambda>k. (k, count_list xs k)) (first_seen xs)"
  have "fold (\<lambda>x d. bump d x) (xs @ [x]) [] = bump ?h x"
    by (simp add: snoc.IH)
  also have "\<dots> = map (\<lambda>k. (k, count_list (xs @ [x]) k)) (first_seen (xs @ [x]))"
  proof (cases "x \<in> set xs")
    case True
    then have "x \<in> set (first_seen xs)" by (simp add: first_seen_props)
    with True show ?thesis
      by (simp add: bump_def dict_get_keys dict_set_present first_seen_props first_seen_snoc
          count_list_snoc)
  next
    case False
    then have "x \<notin> set (first_seen xs)" by (simp add: first_seen_props)
    with False have b: "bump ?h x = ?h @ [(x, 1)]"
      by (simp add: bump_def dict_get_keys dict_set_absent)
    have m: "map (\<lambda>k. (k, count_list (xs @ [x]) k)) (first_seen xs) = ?h"
    proof (rule map_cong [OF refl])
      fix k assume "k \<in> set (first_seen xs)"
      then have "k \<noteq> x" using False by (auto simp: first_seen_props)
      then show "(k, count_list (xs @ [x]) k) = (k, count_list xs k)"
        by (simp only: count_list_snoc) simp
    qed
    have c: "count_list (xs @ [x]) x = 1"
      using False by (simp only: count_list_snoc count_list_absent) simp
    have "map (\<lambda>k. (k, count_list (xs @ [x]) k)) (first_seen (xs @ [x])) =
        map (\<lambda>k. (k, count_list (xs @ [x]) k)) (first_seen xs) @ [(x, count_list (xs @ [x]) x)]"
      using False by (simp only: first_seen_snoc) simp
    then show ?thesis by (simp only: m c b)
  qed
  finally show ?case .
qed

lemma fold_bump_map: "fold (\<lambda>n d. bump d (f n)) ns d0 = fold (\<lambda>x d. bump d x) (map f ns) d0"
  by (simp add: fold_map comp_def)

lemma fold_bump_ends:
  "fold (\<lambda>e d. bump (bump d (edge_source e)) (edge_target e)) es d0 =
     fold (\<lambda>x d. bump d x) (concat (map (\<lambda>e. [edge_source e, edge_target e]) es)) d0"
  by (induction es arbitrary: d0) simp_all

lemma connectivity_histogram:
  "connectivity st =
     map (\<lambda>i. (i, count_list (concat (map (\<lambda>e. [edge_source e, edge_target e]) (edges st))) i))
       (first_seen (concat (map (\<lambda>e. [edge_source e, edge_target e]) (edges st))))"
  by (simp add: connectivity_def fold_bump_ends histogram_fold)

lemma resolve_top_entries: "resolve_top ns xs = List.map_filter (top_entry_of ns) xs"
  by (induction ns xs rule: resolve_top.induct)
     (simp_all add: List.map_filter_simps top_entry_of_def split: option.splits)

lemma connectivity_ends:
  "connectivity st = map (\<lambda>i. (i, count_list (edge_ends st) i)) (first_seen (edge_ends st))"
  by (simp add: connectivity_histogram edge_ends_def)

lemma type_histograms:
  "node_types (fst (get_statistics st)) =
     map (\<lambda>k. (k, count_list (map node_type (nodes st)) k)) (first_seen (map node_type (nodes st)))"
  "edge_types (fst (get_statistics st)) =
     map (\<lambda>k. (k, count_list (map edge_type (edges st)) k)) (first_seen (map edge_type (edges st)))"
proof -
  have "node_types (fst (get_statistics st)) = fold (\<lambda>n d. bump d (node_type n)) (nodes st) []"
    by (simp add: get_statistics_def Let_def)
  also have "\<dots> = fold (\<lambda>x d. bump d x) (map node_type (nodes st)) []"
    by (rule fold_bump_map)
  finally show "node_types (fst (get_statistics st)) =
     map (\<lambda>k. (k, count_list (map node_type (nodes st)) k)) (first_seen (map node_type (nodes st)))"
    by (simp only: histogram_fold)
  have "edge_types (fst (get_statistics st)) = fold (\<lambda>e d. bump d (edge_type e)) (edges st) []"
    by (simp add: get_statistics_def Let_def)
  also have "\<dots> = fold (\<lambda>x d. bump d x) (map edge_type (edges st)) []"
    by (rule fold_bump_map)
  finally show "edge_types (fst (get_statistics st)) =
     map (\<lambda>k. (k, count_list (map edge_type (edges st)) k)) (first_seen (map edge_type (edges st)))"
    by (simp only: histogram_fold)
qed

lemma sorted_by_count_reverse_props:
  "mset (sorted_by_count_reverse xs) = mset xs"
  "sorted_wrt (\<lambda>x y. snd y \<le> snd x) (sorted_by_count_reverse xs)"
  "filter (\<lambda>x. snd x = c) (sorted_by_count_reverse xs) = filter (\<lambda>x. snd x = c) xs"
proof -
  show "mset (sorted_by_count_reverse xs) = mset xs"
    by (simp add: sorted_by_count_reverse_def)
  have "sorted (map (\<lambda>x. - int (snd x)) (sorted_by_count_reverse xs))"
    unfolding sorted_by_count_reverse_def by (rule sorted_sort_key)
  then show "sorted_wrt (\<lambda>x y. snd y \<le> snd x) (sorted_by_count_reverse xs)"
    by (simp add: sorted_map)
  have "filter (\<lambda>x. - int (snd x) = - int c) (sort_key (\<lambda>x. - int (snd x)) xs)
      = filter (\<lambda>x. - int (snd x) = - int c) xs"
    by (rule sort_key_stable)
  then show "filter (\<lambda>x. snd x = c) (sorted_by_count_reverse xs) = filter (\<lambda>x. snd x = c) xs"
    by (simp add: sorted_by_count_reverse_def)
qed

lemma top_connected_eq:
  "top_connected (fst (get_statistics st)) =
     List.map_filter (top_entry_of (nodes st)) (take 5 (sorted_by_count_reverse (connectivity st)))"
  by (simp add: get_statistics_def Let_def resolve_top_entries)

lemma length_map_filter_le: "length (List.map_filter f xs) \<le> length xs"
  by (simp add: List.map_filter_def)

lemma map_filter_all_Some:
  "list_all (\<lambda>x. f x \<noteq> None) xs \<Longrightarrow> List.map_filter f xs = map (\<lambda>x. the (f x)) xs"
  by (induction xs) (auto simp: List.map_filter_simps)

lemma find_None_iff_id: "find (\<lambda>n. node_id n = i) ns = None \<longleftrightarrow> i \<notin> node_id ` set ns"
  by (auto simp: find_None_iff)

lemma set_connectivity_keys: "set (map fst (connectivity st)) = set (edge_ends st)"
  by (simp add: connectivity_ends first_seen_props comp_def)

text \<open>
  C4. The connectivity mapping lists the ids at the ends of edges in the order of their
  first occurrence, each with the number of edge ends it occupies. \<open>top_connected\<close> is
  computed from that mapping sorted by count in descending order, the sort being stable
  (a permutation, descending, and items of equal count in their original order), cut to
  the first five items, each item resolved to the name, type and path of the first node
  with its id and the count. It has at most five entries; when every id at an edge end is
  the id of a node, it has exactly one entry for each of the first five items.
\<close>

theorem top_connected_sorted_stable_truncated_resolved:
  "connectivity st = map (\<lambda>i. (i, count_list (edge_ends st) i)) (first_seen (edge_ends st))
   \<and> mset (sorted_by_count_reverse (connectivity st)) = mset (connectivity st)
   \<and> sorted_wrt (\<lambda>x y. snd y \<le> snd x) (sorted_by_count_reverse (connectivity st))
   \<and> (\<forall>c. filter (\<lambda>x. snd x = c) (sorted_by_count_reverse (connectivity st))
          = filter (\<lambda>x. snd x = c) (connectivity st))
   \<and> top_connected (fst (get_statistics st)) =
        List.map_filter (top_entry_of (nodes st)) (take 5 (sorted_by_count_reverse (connectivity st)))
   \<and> length (top_connected (fst (get_statistics st))) \<le> 5
   \<and> (set (edge_ends st) \<subseteq> node_id ` set (nodes st) \<longrightarrow>
        top_connected (fst (get_statistics st)) =
          map (\<lambda>item. the (top_entry_of (nodes st) item))
            (take 5 (sorted_by_count_reverse (connectivity st)))
        \<and> length (top_connected (fst (get_statistics st))) = min 5 (length (first_seen (edge_ends st))))"
proof -
  let ?top = "take 5 (sorted_by_count_reverse (connectivity st))"
  have len: "length (top_connected (fst (get_statistics st))) \<le> 5"
  proof -
    have "length (top_connected (fst (get_statistics st))) \<le> length ?top"
      unfolding top_connected_eq by (rule length_map_filter_le)
    then show ?thesis by simp
  qed
  have full: "top_connected (fst (get_statistics st)) = map (\<lambda>item. the (top_entry_of (nodes st) item)) ?top
      \<and> length (top_connected (fst (get_statistics st))) = min 5 (length (first_seen (edge_ends st)))"
    if sub: "set (edge_ends st) \<subseteq> node_id ` set (nodes st)"
  proof -
    have keys: "fst item \<in> set (edge_ends st)" if "item \<in> set ?top" for item
    proof -
      from that have "item \<in> set (sorted_by_count_reverse (connectivity st))"
        by (rule in_set_takeD)
      then have "item \<in> set (connectivity st)"
        by (simp add: sorted_by_count_reverse_def)
      then have "fst item \<in> set (map fst (connectivity st))" by simp
      then show ?thesis by (simp only: set_connectivity_keys)
    qed
    have "list_all (\<lambda>item. top_entry_of (nodes st) item \<noteq> None) ?top"
      unfolding list_all_iff
    proof
      fix item assume "item \<in> set ?top"
      then have "fst item \<in> node_id ` set (nodes st)" using keys sub by blast
      then have "find (\<lambda>n. node_id n = fst item) (nodes st) \<noteq> None"
        by (simp only: find_None_iff_id) simp
      then show "top_entry_of (nodes st) item \<noteq> None"
        by (simp add: top_entry_of_def)
    qed
    then have eq: "top_connected (fst (get_statistics st)) = map (\<lambda>item. the (top_entry_of (nodes st) item)) ?top"
      unfolding top_connected_eq by (rule map_filter_all_Some)
    have "length (sorted_by_count_reverse (connectivity st)) = length (first_seen (edge_ends st))"
      by (simp add: sorted_by_count_reverse_def connectivity_ends)
    with eq show ?thesis by (simp add: min.commute)
  qed
  show ?thesis
    using connectivity_ends [of st] sorted_by_count_reverse_props [where xs = "connectivity st"]
      top_connected_eq [of st] len full
    by blast
qed

lemmas stat_simps = get_statistics_def Let_def connectivity_def sorted_by_count_reverse_def
  bump_def contains_edge_def

lemma ex_ranked_stats:
  "connectivity ex_ranked =
     [(''F'', 2), (''A'', 1), (''B'', 1), (''G'', 2), (''C'', 1), (''D'', 1)]"
  "sorted_by_count_reverse (connectivity ex_ranked) =
     [(''F'', 2), (''G'', 2), (''A'', 1), (''B'', 1), (''C'', 1), (''D'', 1)]"
  "edge_ends ex_ranked = [''F'', ''A'', ''F'', ''B'', ''G'', ''C'', ''G'', ''D'']"
  by (simp_all add: stat_simps ex_ranked_def ex_node_def init_def edge_ends_def)

theorem top_connected_sorted_stable_truncated_resolved_witness:
  "set (edge_ends ex_ranked) \<subseteq> node_id ` set (nodes ex_ranked)
   \<and> connectivity ex_ranked =
       [(''F'', 2), (''A'', 1), (''B'', 1), (''G'', 2), (''C'', 1), (''D'', 1)]
   \<and> top_connected (fst (get_statistics ex_ranked)) =
       [\<lparr>top_name = ''a.py'', top_type = ''file'', top_path = ''a.py'', top_connections = 2\<rparr>,
        \<lparr>top_name = ''g.py'', top_type = ''file'', top_path = ''a.py'', top_connections = 2\<rparr>,
        \<lparr>top_name = ''Alpha'', top_type = ''class'', top_path = ''a.py'', top_connections = 1\<rparr>,
        \<lparr>top_name = ''beta'', top_type = ''function'', top_path = ''a.py'', top_connections = 1\<rparr>,
        \<lparr>top_name = ''Gamma'', top_type = ''class'', top_path = ''a.py'', top_connections = 1\<rparr>]"
proof -
  have sub: "set (edge_ends ex_ranked) \<subseteq> node_id ` set (nodes ex_ranked)"
    by (simp add: ex_ranked_stats) (simp add: ex_ranked_def ex_node_def)
  with top_connected_sorted_stable_truncated_resolved [of ex_ranked]
  have "top_connected (fst (get_statistics ex_ranked)) =
      map (\<lambda>item. the (top_entry_of (nodes ex_ranked) item))
        (take 5 (sorted_by_count_reverse (connectivity ex_ranked)))"
    by blast
  also have "\<dots> =
       [\<lparr>top_name = ''a.py'', top_type = ''file'', top_path = ''a.py'', top_connections = 2\<rparr>,
        \<lparr>top_name = ''g.py'', top_type = ''file'', top_path = ''a.py'', top_connections = 2\<rparr>,
        \<lparr>top_name = ''Alpha'', top_type = ''class'', top_path = ''a.py'', top_connections = 1\<rparr>,
        \<lparr>top_name = ''beta'', top_type = ''function'', top_path = ''a.py'', top_connections = 1\<rparr>,
        \<lparr>top_name = ''Gamma'', top_type = ''class'', top_path = ''a.py'', top_connections = 1\<rparr>]"
    by (simp only: ex_ranked_stats(2)) (simp add: top_entry_of_def ex_ranked_def ex_node_def)
  finally have "top_connected (fst (get_statistics ex_ranked)) =
       [\<lparr>top_name = ''a.py'', top_type = ''file'', top_path = ''a.py'', top_connections = 2\<rparr>,
        \<lparr>top_name = ''g.py'', top_type = ''file'', top_path = ''a.py'', top_connections = 2\<rparr>,
        \<lparr>top_name = ''Alpha'', top_type = ''class'', top_path = ''a.py'', top_connections = 1\<rparr>,
        \<lparr>top_name = ''beta'', top_type = ''function'', top_path = ''a.py'', top_connections = 1\<rparr>,
        \<lparr>top_name = ''Gamma'', top_type = ''class'', top_path = ''a.py'', top_connections = 1\<rparr>]" .
  with sub ex_ranked_stats(1) show ?thesis by blast
qed

text \<open>
  C5. The worked example: nodes F (file), A (class), B (function) with distinct ids and the
  edges F to A and F to B, both \<open>contains\<close>. The histograms are
  \<open>{file: 1, class: 1, function: 1}\<close> and \<open>{contains: 2}\<close>, the connectivity is 2 for
  F and 1 for A and for B, and \<open>top_connected\<close> lists F first, then A and B.
\<close>

theorem statistics_of_worked_example:
  assumes "nodes st = [F, A, B]"
    and "edges st = [\<lparr>edge_source = node_id F, edge_target = node_id A, edge_type = ''contains''\<rparr>,
                     \<lparr>edge_source = node_id F, edge_target = node_id B, edge_type = ''contains''\<rparr>]"
    and "node_type F = ''file''" and "node_type A = ''class''" and "node_type B = ''function''"
    and "distinct [node_id F, node_id A, node_id B]"
  shows "node_types (fst (get_statistics st)) = [(''file'', 1), (''class'', 1), (''function'', 1)]
    \<and> edge_types (fst (get_statistics st)) = [(''contains'', 2)]
    \<and> connectivity st = [(node_id F, 2), (node_id A, 1), (node_id B, 1)]
    \<and> top_connected (fst (get_statistics st)) =
         [\<lparr>top_name = node_name F, top_type = ''file'', top_path = node_path F, top_connections = 2\<rparr>,
          \<lparr>top_name = node_name A, top_type = ''class'', top_path = node_path A, top_connections = 1\<rparr>,
          \<lparr>top_name = node_name B, top_type = ''function'', top_path = node_path B, top_connections = 1\<rparr>]"
proof -
  from assms(6) have d: "node_id F \<noteq> node_id A" "node_id F \<noteq> node_id B" "node_id A \<noteq> node_id B"
    "node_id A \<noteq> node_id F" "node_id B \<noteq> node_id F" "node_id B \<noteq> node_id A"
    by auto
  have c: "connectivity st = [(node_id F, 2), (node_id A, 1), (node_id B, 1)]"
    using d by (simp add: connectivity_def bump_def assms(2))
  have nt: "node_types (fst (get_statistics st)) = [(''file'', 1), (''class'', 1), (''function'', 1)]"
    by (simp add: get_statistics_def Let_def bump_def assms(1,3,4,5))
  have et: "edge_types (fst (get_statistics st)) = [(''contains'', 2)]"
    by (simp add: get_statistics_def Let_def bump_def assms(2))
  have s: "sorted_by_count_reverse [(node_id F, 2), (node_id A, 1), (node_id B, 1)]
      = [(node_id F, 2::nat), (node_id A, 1), (node_id B, 1)]"
    by (simp add: sorted_by_count_reverse_def)
  have tc: "top_connected (fst (get_statistics st)) =
         [\<lparr>top_name = node_name F, top_type = ''file'', top_path = node_path F, top_connections = 2\<rparr>,
          \<lparr>top_name = node_name A, top_type = ''class'', top_path = node_path A, top_connections = 1\<rparr>,
          \<lparr>top_name = node_name B, top_type = ''function'', top_path = node_path B, top_connections = 1\<rparr>]"
    unfolding get_statistics_def Let_def fst_conv report.simps c s
    using d by (simp add: assms(1,3,4,5))
  from nt et c tc show ?thesis by blast
qed

theorem statistics_of_worked_example_witness:
  "distinct [node_id (ex_node ''F'' ''file'' ''a.py''), node_id (ex_node ''A'' ''class'' ''Alpha''),
             node_id (ex_node ''B'' ''function'' ''beta'')]
   \<and> node_types (fst (get_statistics ex_small)) = [(''file'', 1), (''class'', 1), (''function'', 1)]
   \<and> edge_types (fst (get_statistics ex_small)) = [(''contains'', 2)]
   \<and> connectivity ex_small = [(''F'', 2), (''A'', 1), (''B'', 1)]
   \<and> top_connected (fst (get_statistics ex_small)) =
         [\<lparr>top_name = ''a.py'', top_type = ''file'', top_path = ''a.py'', top_connections = 2\<rparr>,
          \<lparr>top_name = ''Alpha'', top_type = ''class'', top_path = ''a.py'', top_connections = 1\<rparr>,
          \<lparr>top_name = ''beta'', top_type = ''function'', top_path = ''a.py'', top_connections = 1\<rparr>]"
proof -
  have n: "nodes ex_small = [ex_node ''F'' ''file'' ''a.py'', ex_node ''A'' ''class'' ''Alpha'',
                ex_node ''B'' ''function'' ''beta'']"
    by (simp add: ex_small_def)
  have e: "edges ex_small =
      [\<lparr>edge_source = node_id (ex_node ''F'' ''file'' ''a.py''),
        edge_target = node_id (ex_node ''A'' ''class'' ''Alpha''), edge_type = ''contains''\<rparr>,
       \<lparr>edge_source = node_id (ex_node ''F'' ''file'' ''a.py''),
        edge_target = node_id (ex_node ''B'' ''function'' ''beta''), edge_type = ''contains''\<rparr>]"
    by (simp add: ex_small_def contains_edge_def ex_node_def)
  have t: "node_type (ex_node ''F'' ''file'' ''a.py'') = ''file''"
    "node_type (ex_node ''A'' ''class'' ''Alpha'') = ''class''"
    "node_type (ex_node ''B'' ''function'' ''beta'') = ''function''"
    by (simp_all add: ex_node_def)
  have d: "distinct [node_id (ex_node ''F'' ''file'' ''a.py''), node_id (ex_node ''A'' ''class'' ''Alpha''),
             node_id (ex_node ''B'' ''function'' ''beta'')]"
    by (simp add: ex_node_def)
  from statistics_of_worked_example [OF n e t d] d show ?thesis
    by (simp add: ex_node_def)
qed

text \<open>
  C9. \<open>get_statistics\<close> only reads the generator: after the call the generator, and so
  its node list and edge list with every field, is what it was; a second call gives the
  same report and a later \<open>generate\<close> the same result as without the call.
\<close>

theorem get_statistics_leaves_generator_unchanged:
  "snd (get_statistics st) = st
   \<and> nodes (snd (get_statistics st)) = nodes st
   \<and> edges (snd (get_statistics st)) = edges st
   \<and> get_statistics (snd (get_statistics st)) = get_statistics st
   \<and> generate ev pats (snd (get_statistics st)) = generate ev pats st"
proof -
  have "snd (get_statistics st) = st"
    by (simp add: get_statistics_def Let_def)
  then show ?thesis by simp
qed

lemma top_entry_of_None: "top_entry_of ns item = None \<longleftrightarrow> fst item \<notin> node_id ` set ns"
  by (simp add: top_entry_of_def find_None_iff_id)

lemma ex_dangling_stats:
  "connectivity ex_dangling =
     [(''X1'', 1), (''X2'', 1), (''X3'', 1), (''X4'', 1), (''A'', 1), (''B'', 1)]"
  "top_connected (fst (get_statistics ex_dangling)) =
     [\<lparr>top_name = ''Alpha'', top_type = ''class'', top_path = ''a.py'', top_connections = 1\<rparr>]"
  "node_id ` set (nodes ex_dangling) = {''A'', ''B''}"
  by (simp_all add: stat_simps ex_dangling_def ex_node_def init_def)

text \<open>
  C10. The keys of the connectivity mapping are exactly the ids at the ends of edges,
  whether or not a node carries them. \<open>top_connected\<close> first cuts the sorted mapping to
  five items and then leaves out every item whose id no node carries, so its length is
  the number of the first five items that resolve. In the graph \<open>ex_dangling\<close> six ids
  have edges, two of them are ids of nodes, and \<open>top_connected\<close> has one entry: a graph
  with at least five connected ids and fewer than five entries.
\<close>

theorem dangling_ids_counted_then_dropped_after_truncation:
  "set (map fst (connectivity st)) = edge_source ` set (edges st) \<union> edge_target ` set (edges st)
   \<and> top_connected (fst (get_statistics st)) =
        List.map_filter (top_entry_of (nodes st)) (take 5 (sorted_by_count_reverse (connectivity st)))
   \<and> (top_entry_of (nodes st) item = None \<longleftrightarrow> fst item \<notin> node_id ` set (nodes st))
   \<and> length (top_connected (fst (get_statistics st))) =
        length (filter (\<lambda>item. fst item \<in> node_id ` set (nodes st))
                  (take 5 (sorted_by_count_reverse (connectivity st))))
   \<and> length (connectivity ex_dangling) = 6
   \<and> length (filter (\<lambda>item. fst item \<in> node_id ` set (nodes ex_dangling)) (connectivity ex_dangling)) = 2
   \<and> length (top_connected (fst (get_statistics ex_dangling))) = 1
   \<and> (\<exists>g. 5 \<le> length (connectivity g) \<and> length (top_connected (fst (get_statistics g))) < 5)"
proof -
  have keys: "set (map fst (connectivity st)) = edge_source ` set (edges st) \<union> edge_target ` set (edges st)"
  proof -
    have "set (edge_ends st) = edge_source ` set (edges st) \<union> edge_target ` set (edges st)"
      by (auto simp: edge_ends_def)
    then show ?thesis by (simp only: set_connectivity_keys)
  qed
  have len: "length (top_connected (fst (get_statistics st))) =
        length (filter (\<lambda>item. fst item \<in> node_id ` set (nodes st))
                  (take 5 (sorted_by_count_reverse (connectivity st))))"
    by (simp add: top_connected_eq List.map_filter_def top_entry_of_None)
  have ex: "length (connectivity ex_dangling) = 6"
    "length (filter (\<lambda>item. fst item \<in> node_id ` set (nodes ex_dangling)) (connectivity ex_dangling)) = 2"
    "length (top_connected (fst (get_statistics ex_dangling))) = 1"
    by (simp_all add: ex_dangling_stats)
  then have "5 \<le> length (connectivity ex_dangling)
      \<and> length (top_connected (fst (get_statistics ex_dangling))) < 5"
    by simp
  then have "\<exists>g. 5 \<le> length (connectivity g) \<and> length (top_connected (fst (get_statistics g))) < 5"
    by (rule exI)
  with keys top_connected_eq [of st] top_entry_of_None [of "nodes st" item] len ex
  show ?thesis by blast
qed

end
